theory Spec2Isabelle
  imports Main "HOL-Library.Word"
begin

unbundle bit_operations_syntax

section \<open>GattUuid: a shallow embedding of \<^verbatim>\<open>src/GattUuid.h\<close>\<close>

text \<open>
  The structure \<^verbatim>\<open>GattUuid\<close> holds a \<^verbatim>\<open>std::string uuid\<close> and an
  \<^verbatim>\<open>int bitCount\<close>. Strings are byte lists (\<open>string\<close>), \<^verbatim>\<open>uint16_t\<close>,
  \<^verbatim>\<open>uint32_t\<close> and \<^verbatim>\<open>uint64_t\<close> are words of that width, and \<^verbatim>\<open>int\<close> is
  a 32-bit two's complement value read through \<open>sint\<close>. The two library calls that can
  throw \<^verbatim>\<open>std::out_of_range\<close> (\<^verbatim>\<open>insert\<close> and \<^verbatim>\<open>substr\<close>) return a sum
  whose left side is the exception.
\<close>

subsection \<open>Data\<close>

datatype error = OutOfRange

record GattUuid =
  uuid :: string
  bitCount :: int

definition kGattStandardUuidPart1Prefix :: string where
  "kGattStandardUuidPart1Prefix = ''0000''"

definition kGattStandardUuidSuffix :: string where
  "kGattStandardUuidSuffix = ''-0000-1000-8000-00805f9b34fb''"

subsection \<open>Library calls\<close>

text \<open>\<^verbatim>\<open>::tolower\<close> in the C locale: the 26 upper-case letters move down, every
  other byte is kept.\<close>

definition tolower :: "char \<Rightarrow> char" where
  "tolower c = (if 65 \<le> (of_char c :: nat) \<and> (of_char c :: nat) \<le> 90
                then char_of ((of_char c :: nat) + 32) else c)"

text \<open>\<^verbatim>\<open>std::string::insert(pos, 1, ch)\<close>: throws when \<open>pos\<close> is past the end.\<close>

definition string_insert :: "string \<Rightarrow> nat \<Rightarrow> char \<Rightarrow> error + string" where
  "string_insert s pos ch =
     (if pos > length s then Inl OutOfRange else Inr (take pos s @ [ch] @ drop pos s))"

text \<open>\<^verbatim>\<open>std::string::substr(pos, n)\<close>: throws when \<open>pos\<close> is past the end.\<close>

definition substr :: "string \<Rightarrow> nat \<Rightarrow> nat \<Rightarrow> error + string" where
  "substr s pos n = (if pos > length s then Inl OutOfRange else Inr (take n (drop pos s)))"

text \<open>The conversion \<^verbatim>\<open>%x\<close> of \<^verbatim>\<open>printf\<close>: the lower-case hexadecimal digits of
  an unsigned value, most significant first, at least one digit.\<close>

definition hex_digit :: "nat \<Rightarrow> char" where
  "hex_digit d = ''0123456789abcdef'' ! (d mod 16)"

fun to_hex :: "nat \<Rightarrow> string" where
  "to_hex n = (if n < 16 then [hex_digit n] else to_hex (n div 16) @ [hex_digit (n mod 16)])"

declare to_hex.simps [simp del]

text \<open>\<^verbatim>\<open>%0Wx\<close>: zero padding on the left up to a minimum width \<open>W\<close>; a longer
  rendering is never cut.\<close>

definition fmt_0x :: "nat \<Rightarrow> nat \<Rightarrow> string" where
  "fmt_0x w n = replicate (w - length (to_hex n)) CHR ''0'' @ to_hex n"

text \<open>\<^verbatim>\<open>snprintf(buf, size, ...)\<close> followed by \<^verbatim>\<open>std::string(buf)\<close>: at most
  \<open>cap - 1\<close> bytes of the formatted text are stored before the terminator.\<close>

definition snprintf :: "nat \<Rightarrow> string \<Rightarrow> string" where
  "snprintf cap formatted = take (cap - 1) formatted"

text \<open>Monadic sequencing for the exception.\<close>

definition bind_err :: "error + 'a \<Rightarrow> ('a \<Rightarrow> error + 'b) \<Rightarrow> error + 'b" where
  "bind_err m f = (case m of Inl e \<Rightarrow> Inl e | Inr x \<Rightarrow> f x)"

subsection \<open>\<^verbatim>\<open>clean\<close> and \<^verbatim>\<open>dashify\<close>\<close>

text \<open>The predicate whose negation \<^verbatim>\<open>remove_if\<close> receives.\<close>

definition is_hex_char :: "char \<Rightarrow> bool" where
  "is_hex_char c =
     ((48 \<le> (of_char c :: nat) \<and> (of_char c :: nat) \<le> 57) \<or>
      (97 \<le> (of_char c :: nat) \<and> (of_char c :: nat) \<le> 102) \<or>
      (65 \<le> (of_char c :: nat) \<and> (of_char c :: nat) \<le> 70))"

definition clean :: "string \<Rightarrow> string" where
  "clean strUuid =
     (if strUuid = [] then strUuid
      else filter is_hex_char (map tolower strUuid))"

text \<open>One guarded insertion of \<^verbatim>\<open>dashify\<close>:
  \<^verbatim>\<open>if (dashed.length() > k) { dashed.insert(k, 1, '-'); }\<close>\<close>

definition dash_at :: "nat \<Rightarrow> string \<Rightarrow> error + string" where
  "dash_at k dashed = (if length dashed > k then string_insert dashed k CHR ''-'' else Inr dashed)"

definition dashify :: "string \<Rightarrow> error + string" where
  "dashify str =
     bind_err (bind_err (bind_err (dash_at 8 (clean str)) (dash_at 13)) (dash_at 18)) (dash_at 23)"

subsection \<open>Constructors\<close>

text \<open>\<^verbatim>\<open>bitCount = strUuid.length() * 4\<close> stores a \<^verbatim>\<open>size_t\<close> product in an
  \<^verbatim>\<open>int\<close>. With a 32-bit \<^verbatim>\<open>int\<close> (and a \<^verbatim>\<open>size_t\<close> of 32 or 64 bits) the
  value kept is the product modulo \<open>2^32\<close>, read as two's complement.\<close>

definition length_bits :: "string \<Rightarrow> int" where
  "length_bits s = sint (word_of_nat (length s * 4) :: 32 word)"

definition GattUuid_str :: "string \<Rightarrow> error + GattUuid" where
  "GattUuid_str strUuid0 =
     (let strUuid = clean strUuid0;
          bc = length_bits strUuid;
          (bc', strUuid') =
            (if bc = 16 then (bc, kGattStandardUuidPart1Prefix @ strUuid @ kGattStandardUuidSuffix)
             else if bc = 32 then (bc, strUuid @ kGattStandardUuidSuffix)
             else if bc \<noteq> 128 then (0, [])
             else (bc, strUuid))
      in bind_err (dashify strUuid') (\<lambda>d. Inr \<lparr>uuid = d, bitCount = bc'\<rparr>))"

text \<open>\<^verbatim>\<open>GattUuid(const char *)\<close> builds a \<^verbatim>\<open>std::string\<close> from the bytes in front
  of the first NUL and delegates.\<close>

definition GattUuid_cstr :: "string \<Rightarrow> error + GattUuid" where
  "GattUuid_cstr strUuid = GattUuid_str (takeWhile (\<lambda>c. c \<noteq> CHR 0x00) strUuid)"

definition GattUuid_u16 :: "16 word \<Rightarrow> GattUuid" where
  "GattUuid_u16 part =
     (let partStr = snprintf 5 (fmt_0x 4 (unat part))
      in \<lparr>uuid = kGattStandardUuidPart1Prefix @ partStr @ kGattStandardUuidSuffix,
          bitCount = 16\<rparr>)"

definition GattUuid_u32 :: "32 word \<Rightarrow> GattUuid" where
  "GattUuid_u32 part =
     (let partStr = snprintf 9 (fmt_0x 4 (unat part))
      in \<lparr>uuid = partStr @ kGattStandardUuidSuffix, bitCount = 32\<rparr>)"

definition GattUuid_parts ::
    "32 word \<Rightarrow> 16 word \<Rightarrow> 16 word \<Rightarrow> 16 word \<Rightarrow> 64 word \<Rightarrow> GattUuid" where
  "GattUuid_parts part1 part2 part3 part4 part5 =
     (let part5a = (ucast ((drop_bit 4 part5) AND 0xffffffff) :: 32 word);
          part5b = (ucast (part5 AND 0xffff) :: 32 word);
          partsStr = snprintf 37
            (fmt_0x 8 (unat part1) @ ''-'' @ fmt_0x 4 (unat part2) @ ''-'' @
             fmt_0x 4 (unat part3) @ ''-'' @ fmt_0x 4 (unat part4) @ ''-'' @
             fmt_0x 8 (unat part5a) @ fmt_0x 4 (unat part5b))
      in \<lparr>uuid = partsStr, bitCount = 128\<rparr>)"

subsection \<open>Accessors\<close>

definition getBitCount :: "GattUuid \<Rightarrow> int" where
  "getBitCount g = bitCount g"

definition toString16 :: "GattUuid \<Rightarrow> error + string" where
  "toString16 g = (if uuid g = [] then Inr (uuid g) else substr (uuid g) 4 4)"

definition toString32 :: "GattUuid \<Rightarrow> error + string" where
  "toString32 g = (if uuid g = [] then Inr (uuid g) else substr (uuid g) 0 8)"

definition toString128 :: "GattUuid \<Rightarrow> error + string" where
  "toString128 g = Inr (uuid g)"

definition toString :: "GattUuid \<Rightarrow> error + string" where
  "toString g =
     (if bitCount g = 16 then toString16 g
      else if bitCount g = 32 then toString32 g
      else toString128 g)"

section \<open>Notions of the specification\<close>

text \<open>A lower-case hexadecimal digit: \<open>0\<close> to \<open>9\<close> or \<open>a\<close> to \<open>f\<close>.\<close>

definition is_lower_hex :: "char \<Rightarrow> bool" where
  "is_lower_hex c =
     ((48 \<le> (of_char c :: nat) \<and> (of_char c :: nat) \<le> 57) \<or>
      (97 \<le> (of_char c :: nat) \<and> (of_char c :: nat) \<le> 102))"

text \<open>The specification's wording of one step of the dashifier: a separator goes in at
  offset \<open>k\<close> of the string as it is at that moment, and the step is skipped when the
  string does not reach past that offset.\<close>

definition ins_dash :: "nat \<Rightarrow> string \<Rightarrow> string" where
  "ins_dash k d = (if k < length d then take k d @ CHR ''-'' # drop k d else d)"

text \<open>The result of the four steps, written out by the length of the sanitized text:
  groups of 8, 4, 4, 4 and the rest, with a separator only in front of a non-empty
  group.\<close>

definition dashed_form :: "string \<Rightarrow> string" where
  "dashed_form c =
     (if length c \<le> 8 then c
      else if length c \<le> 12 then take 8 c @ ''-'' @ drop 8 c
      else if length c \<le> 16 then take 8 c @ ''-'' @ take 4 (drop 8 c) @ ''-'' @ drop 12 c
      else if length c \<le> 20 then
        take 8 c @ ''-'' @ take 4 (drop 8 c) @ ''-'' @ take 4 (drop 12 c) @ ''-'' @ drop 16 c
      else take 8 c @ ''-'' @ take 4 (drop 8 c) @ ''-'' @ take 4 (drop 12 c) @ ''-'' @
           take 4 (drop 16 c) @ ''-'' @ drop 20 c)"

text \<open>The number a hexadecimal text denotes, most significant digit first.\<close>

definition hex_digit_value :: "char \<Rightarrow> nat" where
  "hex_digit_value c =
     (if 48 \<le> (of_char c :: nat) \<and> (of_char c :: nat) \<le> 57 then of_char c - 48
      else if 97 \<le> (of_char c :: nat) \<and> (of_char c :: nat) \<le> 102 then of_char c - 87
      else if 65 \<le> (of_char c :: nat) \<and> (of_char c :: nat) \<le> 70 then of_char c - 55
      else 0)"

definition hex_value :: "string \<Rightarrow> nat" where
  "hex_value s = foldl (\<lambda>acc c. 16 * acc + hex_digit_value c) 0 s"

text \<open>The canonical form \<^verbatim>\<open>xxxxxxxx-xxxx-xxxx-xxxx-xxxxxxxxxxxx\<close>: 36 characters,
  separators at indices 8, 13, 18 and 23, lower-case hexadecimal digits everywhere
  else.\<close>

definition well_formed_uuid :: "string \<Rightarrow> bool" where
  "well_formed_uuid s =
     (length s = 36 \<and>
      list_all is_lower_hex (take 8 s) \<and> s ! 8 = CHR ''-'' \<and>
      list_all is_lower_hex (take 4 (drop 9 s)) \<and> s ! 13 = CHR ''-'' \<and>
      list_all is_lower_hex (take 4 (drop 14 s)) \<and> s ! 18 = CHR ''-'' \<and>
      list_all is_lower_hex (take 4 (drop 19 s)) \<and> s ! 23 = CHR ''-'' \<and>
      list_all is_lower_hex (drop 24 s))"

section \<open>Properties of the library calls\<close>

lemma to_hex_small: "n < 16 \<Longrightarrow> to_hex n = [hex_digit n]"
  by (subst to_hex.simps) simp

lemma to_hex_big: "16 \<le> n \<Longrightarrow> to_hex n = to_hex (n div 16) @ [hex_digit (n mod 16)]"
  by (subst to_hex.simps) simp

lemma to_hex_step: "v < 16 \<Longrightarrow> 0 < m \<Longrightarrow> to_hex (16 * m + v) = to_hex m @ [hex_digit v]"
  by (subst to_hex.simps) simp

lemma length_to_hex_pos: "0 < length (to_hex n)"
  by (subst to_hex.simps) simp

lemma hex_chars:
  "''0123456789abcdef'' = map char_of [48..<58::nat] @ map char_of [97..<103::nat]"
  by (simp add: upt_rec_numeral char_of_def bit_Suc_0_iff)

lemma hex_digit_value_less: "hex_digit_value c < 16"
  unfolding hex_digit_value_def by auto

lemma hex_digit_roundtrip:
  assumes "is_lower_hex c"
  shows "hex_digit (hex_digit_value c) = c"
proof -
  define n where "n = (of_char c :: nat)"
  have c: "char_of n = c" by (simp add: n_def)
  from assms consider "48 \<le> n" "n \<le> 57" | "97 \<le> n" "n \<le> 102"
    unfolding is_lower_hex_def n_def by blast
  then show ?thesis
  proof cases
    case 1
    then have "hex_digit_value c = n - 48" by (simp add: hex_digit_value_def n_def)
    moreover from 1 have "n - 48 < 10" by linarith
    with 1 have "(map char_of [48..<58::nat] @ map char_of [97..<103::nat]) ! (n - 48) = char_of n"
      by (simp add: nth_append del: upt_rec_numeral)
    moreover from 1 have "(n - 48) mod 16 = n - 48" by simp
    ultimately show ?thesis by (simp only: hex_digit_def hex_chars c)
  next
    case 2
    then have "hex_digit_value c = n - 87" by (simp add: hex_digit_value_def n_def)
    moreover from 2 have "\<not> n - 87 < 10" "n - 87 - 10 < 6" "97 + (n - 87 - 10) = n"
      by linarith+
    then have "(map char_of [48..<58::nat] @ map char_of [97..<103::nat]) ! (n - 87) = char_of n"
      by (simp add: nth_append del: upt_rec_numeral)
    moreover from 2 have "(n - 87) mod 16 = n - 87" by simp
    ultimately show ?thesis by (simp only: hex_digit_def hex_chars c)
  qed
qed

lemma hex_digit_lower: "is_lower_hex (hex_digit d)"
proof -
  have "list_all is_lower_hex ''0123456789abcdef''"
    by (simp add: is_lower_hex_def)
  moreover have "d mod 16 < length ''0123456789abcdef''" by simp
  ultimately show ?thesis
    unfolding hex_digit_def list_all_length by blast
qed

lemma hex_value_snoc: "hex_value (c @ [d]) = 16 * hex_value c + hex_digit_value d"
  by (simp add: hex_value_def)

lemma hex_value_Nil: "hex_value [] = 0"
  by (simp add: hex_value_def)

lemma hex_value_less: "hex_value c < 16 ^ length c"
proof (induction c rule: rev_induct)
  case Nil
  then show ?case by (simp add: hex_value_Nil)
next
  case (snoc d c)
  have "hex_digit_value d < 16" by (rule hex_digit_value_less)
  with snoc show ?case by (simp add: hex_value_snoc)
qed

lemma fmt_0x_step:
  assumes "v < 16" "0 < w"
  shows "fmt_0x (Suc w) (16 * m + v) = fmt_0x w m @ [hex_digit v]"
proof (cases "m = 0")
  case True
  from assms obtain w' where w: "w = Suc w'" by (cases w) auto
  from True assms show ?thesis
    by (simp add: w fmt_0x_def to_hex_small hex_digit_def replicate_append_same)
next
  case False
  with assms show ?thesis by (simp add: fmt_0x_def to_hex_step)
qed

text \<open>Printing the value of a lower-case hexadecimal text at the width of the text gives
  the text back.\<close>

lemma fmt_0x_hex_value:
  "c \<noteq> [] \<Longrightarrow> list_all is_lower_hex c \<Longrightarrow> fmt_0x (length c) (hex_value c) = c"
proof (induction c rule: rev_induct)
  case Nil
  then show ?case by simp
next
  case (snoc d c)
  show ?case
  proof (cases "c = []")
    case True
    with snoc.prems show ?thesis
      by (simp add: hex_value_def fmt_0x_def to_hex_small hex_digit_value_less hex_digit_roundtrip)
  next
    case False
    with snoc have "fmt_0x (length c) (hex_value c) = c" by simp
    moreover from False have "0 < length c" by simp
    ultimately show ?thesis using snoc.prems
      by (simp add: hex_value_snoc fmt_0x_step hex_digit_value_less hex_digit_roundtrip)
  qed
qed

section \<open>Properties of \<^verbatim>\<open>clean\<close> and \<^verbatim>\<open>dashify\<close>\<close>

lemma clean_eq: "clean s = filter is_hex_char (map tolower s)"
  by (simp add: clean_def)

lemma clean_append: "clean (a @ b) = clean a @ clean b"
  by (simp add: clean_eq)

lemma tolower_not_upper:
  "\<not> (65 \<le> (of_char (tolower c) :: nat) \<and> (of_char (tolower c) :: nat) \<le> 90)"
  by (simp add: tolower_def)

lemma is_lower_hex_fix: "is_lower_hex c \<Longrightarrow> tolower c = c \<and> is_hex_char c"
  by (auto simp: is_lower_hex_def tolower_def is_hex_char_def)

lemma clean_lower_hex: "x \<in> set (clean s) \<Longrightarrow> is_lower_hex x"
proof -
  assume "x \<in> set (clean s)"
  then obtain y where x: "x = tolower y" and h: "is_hex_char (tolower y)"
    by (auto simp: clean_eq)
  from tolower_not_upper [of y] h show ?thesis
    unfolding x is_lower_hex_def is_hex_char_def by linarith
qed

lemma clean_fixed: "list_all is_lower_hex c \<Longrightarrow> clean c = c"
  by (induction c) (auto simp: clean_eq dest: is_lower_hex_fix)

lemma clean_clean: "clean (clean s) = clean s"
  by (rule clean_fixed) (simp add: list_all_iff clean_lower_hex)

lemma clean_dash: "clean (CHR ''-'' # s) = clean s"
  by (simp add: clean_eq is_hex_char_def tolower_def)

lemma clean_suffix: "clean kGattStandardUuidSuffix = ''00001000800000805f9b34fb''"
  by (simp add: kGattStandardUuidSuffix_def clean_eq tolower_def is_hex_char_def)

text \<open>The guard of each insertion keeps \<^verbatim>\<open>insert\<close> inside the string, so no step
  throws.\<close>

lemma dash_at_Inr: "dash_at k d = Inr (ins_dash k d)"
  by (simp add: dash_at_def string_insert_def ins_dash_def)

lemma dashify_Inr:
  "dashify s = Inr (ins_dash 23 (ins_dash 18 (ins_dash 13 (ins_dash 8 (clean s)))))"
  by (simp add: dashify_def dash_at_Inr bind_err_def)

lemma clean_ins_dash: "clean (ins_dash k d) = clean d"
proof -
  have "clean (take k d @ CHR ''-'' # drop k d) = clean (take k d @ drop k d)"
    by (simp only: clean_append clean_dash)
  then show ?thesis by (simp add: ins_dash_def)
qed

lemma ins_chain: "ins_dash 23 (ins_dash 18 (ins_dash 13 (ins_dash 8 c))) = dashed_form c"
proof -
  consider "length c \<le> 8" | "8 < length c" "length c \<le> 12"
    | "12 < length c" "length c \<le> 16" | "16 < length c" "length c \<le> 20" | "20 < length c"
    by linarith
  then show ?thesis
  proof cases
    case 1
    then show ?thesis by (simp add: ins_dash_def dashed_form_def)
  next
    case 2
    then show ?thesis by (simp add: ins_dash_def dashed_form_def)
  next
    case 3
    then show ?thesis by (simp add: ins_dash_def dashed_form_def)
  next
    case 4
    then show ?thesis by (simp add: ins_dash_def dashed_form_def)
  next
    case 5
    then show ?thesis by (simp add: ins_dash_def dashed_form_def)
  qed
qed

lemma dashify_closed: "dashify s = Inr (dashed_form (clean s))"
  by (simp add: dashify_Inr ins_chain)

section \<open>Lengths and digits of the formatted numbers\<close>

lemma length_to_hex_le: "n < 16 ^ k \<Longrightarrow> 0 < k \<Longrightarrow> length (to_hex n) \<le> k"
proof (induction k arbitrary: n)
  case 0
  then show ?case by simp
next
  case (Suc k)
  show ?case
  proof (cases "n < 16")
    case True
    then show ?thesis by (simp add: to_hex_small)
  next
    case False
    with Suc.prems have k: "0 < k" by (cases k) auto
    from Suc.prems have "n div 16 < 16 ^ k" by (simp add: less_mult_imp_div_less mult.commute)
    from this k have "length (to_hex (n div 16)) \<le> k" by (rule Suc.IH)
    with False show ?thesis by (simp add: to_hex_big)
  qed
qed

lemma length_to_hex_gt: "16 ^ k \<le> n \<Longrightarrow> k < length (to_hex n)"
proof (induction k arbitrary: n)
  case 0
  show ?case by (rule length_to_hex_pos)
next
  case (Suc k)
  from Suc.prems have m: "16 * 16 ^ k \<le> n" by simp
  have "(16::nat) * 1 \<le> 16 * 16 ^ k" by (rule mult_le_mono2) simp
  with m have n: "16 \<le> n" by linarith
  from m have "16 ^ k \<le> n div 16" by (simp add: less_eq_div_iff_mult_less_eq mult.commute)
  then have "k < length (to_hex (n div 16))" by (rule Suc.IH)
  with n show ?case by (simp add: to_hex_big)
qed

lemma to_hex_lower: "list_all is_lower_hex (to_hex n)"
proof (induction n rule: to_hex.induct)
  case (1 n)
  show ?case
  proof (cases "n < 16")
    case True
    then show ?thesis by (simp add: to_hex_small hex_digit_lower)
  next
    case False
    with 1 show ?thesis by (simp add: to_hex_big hex_digit_lower)
  qed
qed

lemma zero_lower_hex: "is_lower_hex CHR ''0''"
  by (simp add: is_lower_hex_def)

lemma fmt_0x_lower: "list_all is_lower_hex (fmt_0x w n)"
  using to_hex_lower [of n] by (auto simp: fmt_0x_def list_all_iff zero_lower_hex)

lemma length_fmt_0x: "length (fmt_0x w n) = max w (length (to_hex n))"
  by (simp add: fmt_0x_def)

lemma length_fmt_0x_bounds:
  "n < 16 ^ k \<Longrightarrow> 0 < k \<Longrightarrow> w \<le> length (fmt_0x w n) \<and> length (fmt_0x w n) \<le> max w k"
  using length_to_hex_le [of n k] by (simp add: length_fmt_0x)

lemma length_fmt_0x_exact: "n < 16 ^ w \<Longrightarrow> 0 < w \<Longrightarrow> length (fmt_0x w n) = w"
  using length_fmt_0x_bounds [of n w w] by simp

lemma fmt_0x_wide: "w \<le> length (to_hex n) \<Longrightarrow> fmt_0x w n = to_hex n"
  by (simp add: fmt_0x_def)

lemma unat_u16_less: "unat (p :: 16 word) < 16 ^ 4"
  using unsigned_less [of p, where ?'a = nat] by simp

lemma unat_u32_less: "unat (p :: 32 word) < 16 ^ 8"
  using unsigned_less [of p, where ?'a = nat] by simp

text \<open>A string of the shape the composite constructor prints is well formed.\<close>

lemma well_formed_groups:
  assumes "length a = 8" "length b = 4" "length c = 4" "length d = 4" "length e = 12"
    and "list_all is_lower_hex a" "list_all is_lower_hex b" "list_all is_lower_hex c"
    and "list_all is_lower_hex d" "list_all is_lower_hex e"
  shows "well_formed_uuid (a @ ''-'' @ b @ ''-'' @ c @ ''-'' @ d @ ''-'' @ e)"
  using assms by (simp add: well_formed_uuid_def nth_append)

section \<open>Bit fields of the composite constructor\<close>

lemma and_ffffffff: "(x :: 64 word) AND 0xffffffff = take_bit 32 x"
proof -
  have "(0xffffffff :: 64 word) = mask 32" by (simp add: mask_eq_exp_minus_1)
  then show ?thesis by (simp only: take_bit_eq_mask)
qed

lemma and_ffff: "(x :: 64 word) AND 0xffff = take_bit 16 x"
proof -
  have "(0xffff :: 64 word) = mask 16" by (simp add: mask_eq_exp_minus_1)
  then show ?thesis by (simp only: take_bit_eq_mask)
qed

lemma part5a_low36: "drop_bit 4 (x :: 64 word) AND 0xffffffff = drop_bit 4 (take_bit 36 x)"
  by (simp add: and_ffffffff take_bit_drop_bit)

lemma part5b_low36: "(x :: 64 word) AND 0xffff = take_bit 16 (take_bit 36 x)"
  by (simp add: and_ffff)

lemma part5b_less: "unat (ucast ((x :: 64 word) AND 0xffff) :: 32 word) < 16 ^ 4"
proof -
  have "unat (ucast (take_bit 16 x) :: 32 word) = take_bit 32 (take_bit 16 (unat x))"
    by (simp only: unsigned_ucast_eq unsigned_take_bit_eq) simp
  also have "\<dots> = take_bit 16 (unat x)" by simp
  also have "\<dots> < 2 ^ 16" by (rule take_bit_nat_less_exp)
  finally show ?thesis by (simp add: and_ffff)
qed

section \<open>Text of four digits and the 16-bit constructor\<close>

lemma length_4E: "length xs = 4 \<Longrightarrow> \<exists>a b c d. xs = [a, b, c, d]"
  by (auto simp: length_Suc_conv numeral_eq_Suc)

text \<open>Text of four hexadecimal digits: the digits go between the prefix and the suffix,
  and dashing the result changes nothing.\<close>

lemma text16:
  assumes "length (clean h) = 4"
  shows "GattUuid_str h =
    Inr \<lparr>uuid = ''0000'' @ clean h @ kGattStandardUuidSuffix, bitCount = 16\<rparr>"
proof -
  from assms obtain a b c d where c: "clean h = [a, b, c, d]"
    by (auto dest: length_4E)
  have lb: "length_bits (clean h) = 16"
    by (simp add: length_bits_def assms)
  have "clean (''0000'' @ clean h @ kGattStandardUuidSuffix) =
      ''0000'' @ clean h @ ''00001000800000805f9b34fb''"
    by (simp only: clean_append clean_clean clean_suffix)
       (simp add: clean_eq tolower_def is_hex_char_def)
  then have "dashify (''0000'' @ clean h @ kGattStandardUuidSuffix) =
      Inr (''0000'' @ clean h @ kGattStandardUuidSuffix)"
    by (simp add: dashify_closed c dashed_form_def kGattStandardUuidSuffix_def)
  then show ?thesis
    by (simp add: GattUuid_str_def lb bind_err_def kGattStandardUuidPart1Prefix_def)
qed

lemma u16_of_hex:
  assumes "length c = 4" "list_all is_lower_hex c"
  shows "GattUuid_u16 (word_of_nat (hex_value c)) =
    \<lparr>uuid = ''0000'' @ c @ kGattStandardUuidSuffix, bitCount = 16\<rparr>"
proof -
  have "hex_value c < 16 ^ length c" by (rule hex_value_less)
  with assms have "hex_value c < 65536" by simp
  then have u: "unat (word_of_nat (hex_value c) :: 16 word) = hex_value c"
    by (simp add: unat_of_nat)
  from assms have "c \<noteq> []" by auto
  with assms have "fmt_0x 4 (hex_value c) = c"
    using fmt_0x_hex_value [of c] by simp
  with assms show ?thesis
    by (simp add: GattUuid_u16_def u snprintf_def kGattStandardUuidPart1Prefix_def)
qed

section \<open>Where the canonical form is reached\<close>

lemma length_8E: "length xs = 8 \<Longrightarrow> \<exists>a b c d e f g h. xs = [a, b, c, d, e, f, g, h]"
  by (auto simp: length_Suc_conv numeral_eq_Suc)

lemma wf_short16:
  assumes "length f = 4" "list_all is_lower_hex f"
  shows "well_formed_uuid (''0000'' @ f @ kGattStandardUuidSuffix)"
proof -
  have "''0000'' @ f @ kGattStandardUuidSuffix =
      (''0000'' @ f) @ ''-'' @ ''0000'' @ ''-'' @ ''1000'' @ ''-'' @ ''8000'' @ ''-'' @ ''00805f9b34fb''"
    by (simp add: kGattStandardUuidSuffix_def)
  also from assms have "well_formed_uuid \<dots>"
    by (intro well_formed_groups) (simp_all add: is_lower_hex_def)
  finally show ?thesis .
qed

lemma wf_short32:
  assumes "length f = 8" "list_all is_lower_hex f"
  shows "well_formed_uuid (f @ kGattStandardUuidSuffix)"
proof -
  have "f @ kGattStandardUuidSuffix =
      f @ ''-'' @ ''0000'' @ ''-'' @ ''1000'' @ ''-'' @ ''8000'' @ ''-'' @ ''00805f9b34fb''"
    by (simp add: kGattStandardUuidSuffix_def)
  also from assms have "well_formed_uuid \<dots>"
    by (intro well_formed_groups) (simp_all add: is_lower_hex_def)
  finally show ?thesis .
qed

lemma u16_well_formed: "well_formed_uuid (uuid (GattUuid_u16 part))"
proof -
  define f where "f = fmt_0x 4 (unat part)"
  have l: "length f = 4"
    unfolding f_def using unat_u16_less by (rule length_fmt_0x_exact) simp
  have h: "list_all is_lower_hex f" unfolding f_def by (rule fmt_0x_lower)
  have "uuid (GattUuid_u16 part) = ''0000'' @ f @ kGattStandardUuidSuffix"
    by (simp add: GattUuid_u16_def snprintf_def f_def [symmetric] l kGattStandardUuidPart1Prefix_def)
  also have "\<dots> = (''0000'' @ f) @ ''-'' @ ''0000'' @ ''-'' @ ''1000'' @ ''-'' @ ''8000'' @ ''-'' @ ''00805f9b34fb''"
    by (simp add: kGattStandardUuidSuffix_def)
  also from l h have "well_formed_uuid \<dots>"
    by (intro well_formed_groups) (simp_all add: is_lower_hex_def)
  finally show ?thesis .
qed

lemma u32_well_formed: "0x10000000 \<le> unat part \<Longrightarrow> well_formed_uuid (uuid (GattUuid_u32 part))"
proof -
  assume "0x10000000 \<le> unat part"
  then have "16 ^ 7 \<le> unat part" by simp
  then have "7 < length (to_hex (unat part))" by (rule length_to_hex_gt)
  then have w: "fmt_0x 4 (unat part) = fmt_0x 8 (unat part)"
    by (simp add: fmt_0x_wide)
  define f where "f = fmt_0x 8 (unat part)"
  have l: "length f = 8"
    unfolding f_def using unat_u32_less by (rule length_fmt_0x_exact) simp
  have h: "list_all is_lower_hex f" unfolding f_def by (rule fmt_0x_lower)
  have "uuid (GattUuid_u32 part) = f @ kGattStandardUuidSuffix"
    by (simp add: GattUuid_u32_def snprintf_def w f_def [symmetric] l)
  also have "\<dots> = f @ ''-'' @ ''0000'' @ ''-'' @ ''1000'' @ ''-'' @ ''8000'' @ ''-'' @ ''00805f9b34fb''"
    by (simp add: kGattStandardUuidSuffix_def)
  also from l h have "well_formed_uuid \<dots>"
    by (intro well_formed_groups) (simp_all add: is_lower_hex_def)
  finally show ?thesis .
qed

lemma parts_well_formed:
  "well_formed_uuid (uuid (GattUuid_parts part1 part2 part3 part4 part5))"
proof -
  define a where "a = fmt_0x 8 (unat part1)"
  define b where "b = fmt_0x 4 (unat part2)"
  define c where "c = fmt_0x 4 (unat part3)"
  define d where "d = fmt_0x 4 (unat part4)"
  define e1 where "e1 = fmt_0x 8 (unat (ucast (drop_bit 4 part5 AND 0xffffffff) :: 32 word))"
  define e2 where "e2 = fmt_0x 4 (unat (ucast (part5 AND 0xffff) :: 32 word))"
  have la: "length a = 8"
    unfolding a_def using unat_u32_less by (rule length_fmt_0x_exact) simp
  have lb: "length b = 4"
    unfolding b_def using unat_u16_less by (rule length_fmt_0x_exact) simp
  have lc: "length c = 4"
    unfolding c_def using unat_u16_less by (rule length_fmt_0x_exact) simp
  have ld: "length d = 4"
    unfolding d_def using unat_u16_less by (rule length_fmt_0x_exact) simp
  have le1: "length e1 = 8"
    unfolding e1_def using unat_u32_less by (rule length_fmt_0x_exact) simp
  have le2: "length e2 = 4"
    unfolding e2_def using part5b_less by (rule length_fmt_0x_exact) simp
  have h: "list_all is_lower_hex a" "list_all is_lower_hex b" "list_all is_lower_hex c"
    "list_all is_lower_hex d" "list_all is_lower_hex (e1 @ e2)"
    unfolding a_def b_def c_def d_def e1_def e2_def by (simp_all add: fmt_0x_lower)
  have "uuid (GattUuid_parts part1 part2 part3 part4 part5) =
      take 36 (a @ ''-'' @ b @ ''-'' @ c @ ''-'' @ d @ ''-'' @ (e1 @ e2))"
    by (simp add: GattUuid_parts_def snprintf_def a_def b_def c_def d_def e1_def e2_def)
  also have "\<dots> = a @ ''-'' @ b @ ''-'' @ c @ ''-'' @ d @ ''-'' @ (e1 @ e2)"
    by (simp add: la lb lc ld le1 le2)
  also from la lb lc ld le1 le2 h have "well_formed_uuid \<dots>"
    by (intro well_formed_groups) simp_all
  finally show ?thesis .
qed

lemma wf_dashed32:
  assumes "length c = 32" "list_all is_lower_hex c"
  shows "well_formed_uuid (dashed_form c)"
proof -
  from assms(1) have "dashed_form c =
      take 8 c @ ''-'' @ take 4 (drop 8 c) @ ''-'' @ take 4 (drop 12 c) @ ''-'' @
      take 4 (drop 16 c) @ ''-'' @ drop 20 c"
    by (simp add: dashed_form_def)
  also have "well_formed_uuid \<dots>"
  proof (intro well_formed_groups)
    show "list_all is_lower_hex (take 8 c)" "list_all is_lower_hex (take 4 (drop 8 c))"
      "list_all is_lower_hex (take 4 (drop 12 c))" "list_all is_lower_hex (take 4 (drop 16 c))"
      "list_all is_lower_hex (drop 20 c)"
      using assms(2) by (auto simp: list_all_iff dest: in_set_takeD in_set_dropD)
  qed (simp_all add: assms(1))
  finally show ?thesis .
qed

lemma text32:
  assumes "length (clean h) = 8"
  shows "GattUuid_str h = Inr \<lparr>uuid = clean h @ kGattStandardUuidSuffix, bitCount = 32\<rparr>"
proof -
  from assms obtain a b c d e f g i where c: "clean h = [a, b, c, d, e, f, g, i]"
    by (auto dest: length_8E)
  have lb: "length_bits (clean h) = 32"
    by (simp add: length_bits_def assms)
  have "clean (clean h @ kGattStandardUuidSuffix) = clean h @ ''00001000800000805f9b34fb''"
    by (simp only: clean_append clean_clean clean_suffix)
  then have "dashify (clean h @ kGattStandardUuidSuffix) = Inr (clean h @ kGattStandardUuidSuffix)"
    by (simp add: dashify_closed c dashed_form_def kGattStandardUuidSuffix_def)
  then show ?thesis
    by (simp add: GattUuid_str_def lb bind_err_def)
qed

lemma text128:
  assumes "length (clean h) = 32"
  shows "GattUuid_str h = Inr \<lparr>uuid = dashed_form (clean h), bitCount = 128\<rparr>"
proof -
  have lb: "length_bits (clean h) = 128"
    by (simp add: length_bits_def assms)
  then show ?thesis
    by (simp add: GattUuid_str_def bind_err_def dashify_closed clean_clean)
qed

text \<open>Construction from text never throws.\<close>

lemma text_total: "\<exists>g. GattUuid_str s = Inr g"
  by (simp add: GattUuid_str_def dashify_closed bind_err_def Let_def split: prod.split)

lemma cstr_no_nul:
  "CHR 0x00 \<notin> set strUuid \<Longrightarrow> GattUuid_cstr strUuid = GattUuid_str strUuid"
proof -
  assume "CHR 0x00 \<notin> set strUuid"
  then have "takeWhile (\<lambda>c. c \<noteq> CHR 0x00) strUuid = strUuid"
    by (induction strUuid) auto
  then show ?thesis unfolding GattUuid_cstr_def by (rule arg_cong)
qed

lemma text_well_formed:
  assumes "length (clean s) = 4 \<or> length (clean s) = 8 \<or> length (clean s) = 32"
  shows "\<exists>g. GattUuid_str s = Inr g \<and> bitCount g = 4 * int (length (clean s)) \<and>
             well_formed_uuid (uuid g)"
proof -
  have h: "list_all is_lower_hex (clean s)"
    by (simp add: list_all_iff clean_lower_hex)
  from assms consider "length (clean s) = 4" | "length (clean s) = 8" | "length (clean s) = 32"
    by blast
  then show ?thesis
  proof cases
    case 1
    with h have "well_formed_uuid (''0000'' @ clean s @ kGattStandardUuidSuffix)"
      by (intro wf_short16)
    with 1 show ?thesis by (simp add: text16)
  next
    case 2
    with h show ?thesis by (simp add: text32 wf_short32)
  next
    case 3
    with h show ?thesis by (simp add: text128 wf_dashed32)
  qed
qed

lemma u32_of_hex:
  assumes "length c = 8" "list_all is_lower_hex c" "0x10000000 \<le> hex_value c"
  shows "GattUuid_u32 (word_of_nat (hex_value c)) =
    \<lparr>uuid = c @ kGattStandardUuidSuffix, bitCount = 32\<rparr>"
proof -
  have "hex_value c < 16 ^ length c" by (rule hex_value_less)
  with assms have "hex_value c < 4294967296" by simp
  then have u: "unat (word_of_nat (hex_value c) :: 32 word) = hex_value c"
    by (simp add: unat_of_nat)
  from assms have "c \<noteq> []" by auto
  with assms have f8: "fmt_0x 8 (hex_value c) = c"
    using fmt_0x_hex_value [of c] by simp
  from assms(3) have "16 ^ 7 \<le> hex_value c" by simp
  then have "7 < length (to_hex (hex_value c))" by (rule length_to_hex_gt)
  then have "fmt_0x 4 (hex_value c) = fmt_0x 8 (hex_value c)"
    by (simp add: fmt_0x_wide)
  with f8 assms show ?thesis
    by (simp add: GattUuid_u32_def u snprintf_def)
qed

lemma text8_eq_u32_large:
  "length (clean h) = 8 \<Longrightarrow> 0x10000000 \<le> hex_value (clean h) \<Longrightarrow>
     GattUuid_str h = Inr (GattUuid_u32 (word_of_nat (hex_value (clean h))))"
  by (simp add: text32 u32_of_hex list_all_iff clean_lower_hex)

section \<open>The stored bit count\<close>

lemma replicate4: "replicate 4 x = [x, x, x, x]"
  by (simp add: numeral_eq_Suc)

lemma take8_dashed_form: "take 8 (dashed_form c) = take 8 c"
  by (simp add: dashed_form_def)

lemma length_dashed_form: "length c \<le> length (dashed_form c)"
  by (simp add: dashed_form_def)

lemma length_bits_eq_iff:
  assumes "length s * 4 < 2 ^ 32" "k < 2 ^ 31"
  shows "length_bits s = int k \<longleftrightarrow> length s * 4 = k"
proof -
  have "sint (word_of_nat k :: 32 word) = int k"
  proof -
    from assms(2) have "int k < 2 ^ 31" by (simp add: of_nat_less_numeral_power_cancel_iff)
    then have "signed_take_bit 31 (int k) = int k"
      by (intro signed_take_bit_int_eq_self) simp_all
    then show ?thesis by (simp only: signed_of_nat) simp
  qed
  then have "length_bits s = int k \<longleftrightarrow>
      sint (word_of_nat (length s * 4) :: 32 word) = sint (word_of_nat k :: 32 word)"
    by (simp add: length_bits_def)
  also have "\<dots> \<longleftrightarrow> (word_of_nat (length s * 4) :: 32 word) = word_of_nat k"
    by (simp only: word_eq_iff_signed [where ?'a = int])
  also have "\<dots> \<longleftrightarrow> take_bit 32 (length s * 4) = take_bit 32 k"
    by (simp only: word_of_nat_eq_iff) simp
  also from assms have "\<dots> \<longleftrightarrow> length s * 4 = k"
    by (simp add: take_bit_nat_eq_self)
  finally show ?thesis .
qed

lemma text_invalid_length:
  assumes "length (clean s) < 2 ^ 30"
    and "length (clean s) \<noteq> 4" "length (clean s) \<noteq> 8" "length (clean s) \<noteq> 32"
  shows "GattUuid_str s = Inr \<lparr>uuid = [], bitCount = 0\<rparr> \<and>
         toString \<lparr>uuid = [], bitCount = 0\<rparr> = Inr []"
proof -
  from assms(1) have b: "length (clean s) * 4 < 2 ^ 32" by simp
  from assms have "length_bits (clean s) \<noteq> 16"
    using length_bits_eq_iff [OF b, of 16] by simp
  moreover from assms have "length_bits (clean s) \<noteq> 32"
    using length_bits_eq_iff [OF b, of 32] by simp
  moreover from assms have "length_bits (clean s) \<noteq> 128"
    using length_bits_eq_iff [OF b, of 128] by simp
  moreover have "dashify [] = Inr []" by (simp add: dashify_closed clean_def dashed_form_def)
  ultimately have "GattUuid_str s = Inr \<lparr>uuid = [], bitCount = 0\<rparr>"
    by (simp add: GattUuid_str_def bind_err_def)
  moreover have "toString \<lparr>uuid = [], bitCount = 0\<rparr> = Inr []"
    by (simp add: toString_def toString128_def)
  ultimately show ?thesis by simp
qed

text \<open>The facts that evaluate the model on a concrete input.\<close>

lemmas gatt_eval =
  GattUuid_str_def GattUuid_u16_def GattUuid_u32_def GattUuid_parts_def
  length_bits_def dashify_def dash_at_def string_insert_def substr_def bind_err_def
  clean_def tolower_def is_hex_char_def char_of_def bit_Suc_0_iff
  snprintf_def fmt_0x_def to_hex_small to_hex_big
  hex_digit_def kGattStandardUuidPart1Prefix_def kGattStandardUuidSuffix_def
  toString_def toString16_def toString32_def toString128_def
  hex_value_def hex_digit_value_def

section \<open>The claims\<close>

text \<open>
  C1. Claimed: for every text \<open>h\<close> whose sanitized form has exactly eight hexadecimal
  digits, construction from the text and construction from the 32-bit integer those
  digits denote give the same canonical string, leading zero digits included. The
  32-bit constructor prints with \<^verbatim>\<open>%04x\<close>, so a value below \<^verbatim>\<open>0x10000000\<close> loses
  its leading zeros: for \<^verbatim>\<open>0000180A\<close> the text gives
  \<^verbatim>\<open>0000180a-0000-1000-8000-00805f9b34fb\<close> and the integer gives
  \<^verbatim>\<open>180a-0000-1000-8000-00805f9b34fb\<close>.
\<close>

theorem text8_differs_from_u32:
  "length (clean ''0000180A'') = 8 \<and>
   hex_value (clean ''0000180A'') = 0x180A \<and>
   GattUuid_str ''0000180A'' =
     Inr \<lparr>uuid = ''0000180a-0000-1000-8000-00805f9b34fb'', bitCount = 32\<rparr> \<and>
   GattUuid_u32 (word_of_nat (hex_value (clean ''0000180A''))) =
     \<lparr>uuid = ''180a-0000-1000-8000-00805f9b34fb'', bitCount = 32\<rparr> \<and>
   GattUuid_str ''0000180A'' \<noteq>
     Inr (GattUuid_u32 (word_of_nat (hex_value (clean ''0000180A''))))"
proof -
  have "length (clean ''0000180A'') = 8" by (simp add: gatt_eval)
  moreover have v: "hex_value (clean ''0000180A'') = 0x180A" by (simp add: gatt_eval)
  moreover have "GattUuid_str ''0000180A'' =
      Inr \<lparr>uuid = ''0000180a-0000-1000-8000-00805f9b34fb'', bitCount = 32\<rparr>"
    by (simp add: gatt_eval)
  moreover have "GattUuid_u32 0x180A =
      \<lparr>uuid = ''180a-0000-1000-8000-00805f9b34fb'', bitCount = 32\<rparr>"
    by (simp add: gatt_eval)
  ultimately show ?thesis by simp
qed

text \<open>
  C2. Claimed: every identifier of width 16, 32 or 128, whichever constructor built it,
  holds a canonical string of 36 characters with separators at indices 8, 13, 18 and 23
  and lower-case hexadecimal digits elsewhere. The 32-bit constructor at \<^verbatim>\<open>0x180A\<close>
  has width 32 and a canonical string of 32 characters that is not of that form.
\<close>

theorem u32_not_well_formed:
  "bitCount (GattUuid_u32 0x180A) = 32 \<and>
   uuid (GattUuid_u32 0x180A) = ''180a-0000-1000-8000-00805f9b34fb'' \<and>
   length (uuid (GattUuid_u32 0x180A)) = 32 \<and>
   \<not> well_formed_uuid (uuid (GattUuid_u32 0x180A))"
proof -
  have "GattUuid_u32 0x180A = \<lparr>uuid = ''180a-0000-1000-8000-00805f9b34fb'', bitCount = 32\<rparr>"
    by (simp add: gatt_eval)
  then show ?thesis by (simp add: well_formed_uuid_def)
qed

text \<open>
  C3. Claimed: the last twelve characters of the composite constructor's canonical string
  are the low 48 bits of the fifth argument in twelve zero-padded lower-case hexadecimal
  digits. The constructor shifts the fifth argument right by 4 where 16 is needed: for
  \<^verbatim>\<open>0x123456789abc\<close> the last twelve characters are \<^verbatim>\<open>456789ab9abc\<close>, while
  the low 48 bits print as \<^verbatim>\<open>123456789abc\<close>.
\<close>

theorem parts_low48_not_rendered:
  "uuid (GattUuid_parts 0x12345678 0x9abc 0xdef0 0x1234 0x123456789abc) =
     ''12345678-9abc-def0-1234-456789ab9abc'' \<and>
   drop 24 (uuid (GattUuid_parts 0x12345678 0x9abc 0xdef0 0x1234 0x123456789abc)) =
     ''456789ab9abc'' \<and>
   fmt_0x 12 (unat (take_bit 48 (0x123456789abc :: 64 word))) = ''123456789abc'' \<and>
   drop 24 (uuid (GattUuid_parts 0x12345678 0x9abc 0xdef0 0x1234 0x123456789abc)) \<noteq>
     fmt_0x 12 (unat (take_bit 48 (0x123456789abc :: 64 word)))"
proof -
  have "uuid (GattUuid_parts 0x12345678 0x9abc 0xdef0 0x1234 0x123456789abc) =
      ''12345678-9abc-def0-1234-456789ab9abc''"
    by (simp add: gatt_eval)
  moreover have "fmt_0x 12 (unat (take_bit 48 (0x123456789abc :: 64 word))) = ''123456789abc''"
    by (simp add: gatt_eval)
  ultimately show ?thesis by simp
qed

text \<open>
  C4. There are 32-bit values for which the 32-bit constructor gives a canonical string
  shorter than 36 characters whose first eight characters (the 32-bit view, which is
  also what \<^verbatim>\<open>toString\<close> returns at width 32) contain a separator: every value
  below \<^verbatim>\<open>0x10000000\<close> is one, for instance \<^verbatim>\<open>0x180A\<close>.
\<close>

theorem u32_short_value:
  "unat v < 0x10000000 \<Longrightarrow>
     length (uuid (GattUuid_u32 v)) < 36 \<and>
     toString32 (GattUuid_u32 v) = Inr (take 8 (uuid (GattUuid_u32 v))) \<and>
     toString (GattUuid_u32 v) = toString32 (GattUuid_u32 v) \<and>
     CHR ''-'' \<in> set (take 8 (uuid (GattUuid_u32 v)))"
proof -
  assume v: "unat v < 0x10000000"
  define f where "f = fmt_0x 4 (unat v)"
  from v have "unat v < 16 ^ 7" by simp
  then have "4 \<le> length f \<and> length f \<le> max 4 7"
    unfolding f_def by (rule length_fmt_0x_bounds) simp
  then have lo: "4 \<le> length f" and hi: "length f \<le> 7" by simp_all
  from hi have u: "uuid (GattUuid_u32 v) = f @ kGattStandardUuidSuffix"
    by (simp add: GattUuid_u32_def snprintf_def f_def [symmetric])
  have b: "bitCount (GattUuid_u32 v) = 32"
    by (simp add: GattUuid_u32_def)
  from hi obtain m where m: "8 - length f = Suc m" by (cases "8 - length f") auto
  from hi have "take 8 (f @ kGattStandardUuidSuffix) = f @ take (8 - length f) kGattStandardUuidSuffix"
    by simp
  then have d: "CHR ''-'' \<in> set (take 8 (uuid (GattUuid_u32 v)))"
    by (simp add: u m kGattStandardUuidSuffix_def)
  from hi have l: "length (uuid (GattUuid_u32 v)) < 36"
    by (simp add: u kGattStandardUuidSuffix_def)
  have t: "toString32 (GattUuid_u32 v) = Inr (take 8 (uuid (GattUuid_u32 v)))"
    by (simp add: toString32_def substr_def)
  have "toString (GattUuid_u32 v) = toString32 (GattUuid_u32 v)"
    by (simp add: toString_def b)
  with l t d show ?thesis by simp
qed

theorem u32_short_value_witness:
  "unat (0x180A :: 32 word) < 0x10000000 \<and>
   uuid (GattUuid_u32 0x180A) = ''180a-0000-1000-8000-00805f9b34fb'' \<and>
   length (uuid (GattUuid_u32 0x180A)) < 36 \<and>
   toString (GattUuid_u32 0x180A) = Inr ''180a-000'' \<and>
   CHR ''-'' \<in> set (take 8 (uuid (GattUuid_u32 0x180A)))"
proof -
  have h: "unat (0x180A :: 32 word) < 0x10000000" by simp
  have u: "uuid (GattUuid_u32 0x180A) = ''180a-0000-1000-8000-00805f9b34fb''"
    by (simp add: gatt_eval)
  from u32_short_value [OF h] h u show ?thesis by simp
qed

text \<open>
  C5. In the composite constructor, bits 36 to 47 of the fifth argument (and every bit
  above) never reach the result: two calls that agree on the four leading fields and on
  bits 0 to 35 of the fifth give the same identifier, also when the fifth arguments
  differ within their low 48 bits.
\<close>

theorem parts_ignore_bits_36_47:
  "take_bit 36 part5 = take_bit 36 part5' \<Longrightarrow>
     GattUuid_parts part1 part2 part3 part4 part5 = GattUuid_parts part1 part2 part3 part4 part5'"
  unfolding GattUuid_parts_def by (simp only: part5a_low36 part5b_low36)

theorem parts_ignore_bits_36_47_witness:
  "take_bit 36 (0x123456789abc :: 64 word) = take_bit 36 0xfff456789abc \<and>
   take_bit 48 (0x123456789abc :: 64 word) \<noteq> take_bit 48 0xfff456789abc \<and>
   GattUuid_parts 1 2 3 4 0x123456789abc = GattUuid_parts 1 2 3 4 0xfff456789abc"
proof -
  have e: "take_bit 36 (0x123456789abc :: 64 word) = take_bit 36 0xfff456789abc"
    by simp
  have n: "take_bit 48 (0x123456789abc :: 64 word) \<noteq> take_bit 48 0xfff456789abc"
    by simp
  from parts_ignore_bits_36_47 [OF e] e n show ?thesis by blast
qed

text \<open>
  C6. For every string \<open>s\<close>, \<^verbatim>\<open>dashify(s)\<close> returns normally, and sanitizing its
  result gives exactly the sanitized input: \<^verbatim>\<open>clean(dashify(s)) == clean(s)\<close>.
\<close>

theorem clean_dashify: "\<exists>d. dashify s = Inr d \<and> clean d = clean s"
  by (simp add: dashify_Inr clean_ins_dash clean_clean)

text \<open>
  C7. For every input text \<open>h\<close> whose sanitized form has exactly four hexadecimal
  digits, construction from the text succeeds and yields the identifier that the 16-bit
  constructor builds from the number those digits denote: the same canonical string
  (and the same bit count).
\<close>

theorem text16_eq_u16:
  "length (clean h) = 4 \<Longrightarrow>
     GattUuid_str h = Inr (GattUuid_u16 (word_of_nat (hex_value (clean h))))"
  by (simp add: text16 u16_of_hex list_all_iff clean_lower_hex)

theorem text16_eq_u16_witness:
  "length (clean ''29-0A'') = 4 \<and>
   hex_value (clean ''29-0A'') = 0x290a \<and>
   GattUuid_str ''29-0A'' = Inr (GattUuid_u16 0x290a) \<and>
   uuid (GattUuid_u16 0x290a) = ''0000290a-0000-1000-8000-00805f9b34fb''"
proof -
  have l: "length (clean ''29-0A'') = 4"
    by (simp add: gatt_eval)
  have v: "hex_value (clean ''29-0A'') = 0x290a"
    by (simp add: gatt_eval)
  have u: "uuid (GattUuid_u16 0x290a) = ''0000290a-0000-1000-8000-00805f9b34fb''"
    by (simp add: gatt_eval)
  from text16_eq_u16 [OF l] l v u show ?thesis by simp
qed

text \<open>
  C8. Claimed: for every text whose sanitized length is not 4, 8 or 32, construction
  gives width 0, an empty canonical string and an empty rendering, and raises nothing.
  The width test reads \<^verbatim>\<open>length() * 4\<close> through an \<^verbatim>\<open>int\<close>: a text of
  \<open>2^30 + 4\<close> hexadecimal digits has the stored bit count 16, so it is expanded like a
  16-bit identifier and renders as \<^verbatim>\<open>0000\<close>. (For sanitized lengths below \<open>2^30\<close>
  the claim holds: lemma \<open>text_invalid_length\<close>.)
\<close>

theorem text_length_wraps:
  "length (clean (replicate 1073741828 CHR ''0'')) = 1073741828 \<and>
   (\<exists>g. GattUuid_str (replicate 1073741828 CHR ''0'') = Inr g \<and>
        bitCount g = 16 \<and> uuid g \<noteq> [] \<and> toString g = Inr ''0000'')"
proof -
  define z where "z = replicate 1073741828 CHR ''0''"
  define c where "c = ''0000'' @ z @ ''00001000800000805f9b34fb''"
  have lz: "length z = 1073741828" by (simp add: z_def)
  have "list_all is_lower_hex z" by (simp add: z_def list_all_iff zero_lower_hex)
  then have cz: "clean z = z" by (rule clean_fixed)
  have lb: "length_bits z = 16" by (simp add: length_bits_def lz)
  have t4: "take 4 z = ''0000''" by (simp add: z_def replicate4)
  have "clean (''0000'' @ z @ kGattStandardUuidSuffix) = c"
    unfolding c_def
    by (simp only: clean_append cz clean_suffix) (simp add: clean_eq tolower_def is_hex_char_def)
  then have d: "dashify (''0000'' @ z @ kGattStandardUuidSuffix) = Inr (dashed_form c)"
    by (simp add: dashify_closed)
  from d have g: "GattUuid_str z = Inr \<lparr>uuid = dashed_form c, bitCount = 16\<rparr>"
    by (simp add: GattUuid_str_def cz lb bind_err_def kGattStandardUuidPart1Prefix_def)
  have "length c \<le> length (dashed_form c)" by (rule length_dashed_form)
  then have ne: "dashed_form c \<noteq> []" and l4: "4 \<le> length (dashed_form c)"
    by (auto simp: c_def)
  have "take 4 (drop 4 (dashed_form c)) = take 4 (drop 4 (take 8 (dashed_form c)))"
    by (simp add: drop_take)
  also have "\<dots> = take 4 (drop 4 (take 8 c))" by (simp only: take8_dashed_form)
  also have "\<dots> = take 4 z" by (simp add: c_def lz)
  finally have "take 4 (drop 4 (dashed_form c)) = ''0000''" by (simp add: t4)
  with ne l4 have "toString \<lparr>uuid = dashed_form c, bitCount = 16\<rparr> = Inr ''0000''"
    by (simp add: toString_def toString16_def substr_def)
  with g ne cz lz show ?thesis unfolding z_def [symmetric] by simp
qed

text \<open>
  C9. For every string \<open>s\<close>, \<^verbatim>\<open>dashify(s)\<close> sanitizes \<open>s\<close> and then inserts
  \<open>-\<close> at offsets 8, 13, 18 and 23 of the string as modified so far, each insertion
  skipped when the string does not reach past the offset; it never fails, and a short
  input comes out partially dashed: the sanitized text in groups of 8, 4, 4, 4 and the
  rest, with a separator only before a non-empty group. The input
  \<^verbatim>\<open>0000180A.0000.100\<close> yields \<^verbatim>\<open>0000180a-0000-100\<close>, with two separators.
\<close>

theorem dashify_progressive:
  "dashify s = Inr (ins_dash 23 (ins_dash 18 (ins_dash 13 (ins_dash 8 (clean s))))) \<and>
   dashify s = Inr (dashed_form (clean s)) \<and>
   clean ''0000180A.0000.100'' = ''0000180a0000100'' \<and>
   dashify ''0000180A.0000.100'' = Inr ''0000180a-0000-100'' \<and>
   count_list ''0000180a-0000-100'' CHR ''-'' = 2"
proof -
  have "clean ''0000180A.0000.100'' = ''0000180a0000100''"
    by (simp add: gatt_eval)
  moreover have "dashify ''0000180A.0000.100'' = Inr ''0000180a-0000-100''"
    by (simp add: gatt_eval)
  moreover have "count_list ''0000180a-0000-100'' CHR ''-'' = 2"
    by simp
  ultimately show ?thesis
    by (simp only: dashify_Inr ins_chain simp_thms)
qed

text \<open>
  C10. The known answers: the text \<^verbatim>\<open>0000180A\<close> gives the canonical string
  \<^verbatim>\<open>0000180a-0000-1000-8000-00805f9b34fb\<close> with width 32; the text \<^verbatim>\<open>2901\<close>
  gives \<^verbatim>\<open>00002901-0000-1000-8000-00805f9b34fb\<close> with width 16; and the 16-bit
  integer \<^verbatim>\<open>0x2901\<close> gives the same canonical string as the text \<^verbatim>\<open>2901\<close>.
\<close>

theorem known_answers:
  "GattUuid_str ''0000180A'' =
     Inr \<lparr>uuid = ''0000180a-0000-1000-8000-00805f9b34fb'', bitCount = 32\<rparr> \<and>
   GattUuid_str ''2901'' =
     Inr \<lparr>uuid = ''00002901-0000-1000-8000-00805f9b34fb'', bitCount = 16\<rparr> \<and>
   uuid (GattUuid_u16 0x2901) = ''00002901-0000-1000-8000-00805f9b34fb''"
proof -
  have "GattUuid_str ''0000180A'' =
      Inr \<lparr>uuid = ''0000180a-0000-1000-8000-00805f9b34fb'', bitCount = 32\<rparr>"
    by (simp add: gatt_eval)
  moreover have "GattUuid_str ''2901'' =
      Inr \<lparr>uuid = ''00002901-0000-1000-8000-00805f9b34fb'', bitCount = 16\<rparr>"
    by (simp add: gatt_eval)
  moreover have "uuid (GattUuid_u16 0x2901) = ''00002901-0000-1000-8000-00805f9b34fb''"
    by (simp add: gatt_eval)
  ultimately show ?thesis by simp
qed

end
